theory Spec2Isabelle
  imports Main "HOL-Library.Sublist"
begin

section \<open>The library environment of image\_scraper.py\<close>

text \<open>
  The scraper calls into requests, BeautifulSoup, urllib, hashlib, mimetypes, Pillow and
  the file system. None of that is code of the repository, so every such call is a field
  of the record \<open>env\<close>; the functions of \<^verbatim>\<open>image_scraper.py\<close> are translated
  over an arbitrary \<open>env\<close>. Strings are lists of characters with code points below 256,
  bytes are the same type. A library call that raises returns \<open>None\<close> (or \<open>False\<close> where
  it has no result).
\<close>

datatype py_error = ValueError | AttributeError | OSError

type_synonym bytes = string

record parse_result =
  netloc :: string
  path :: string

record response =
  status_code :: int
  content_type :: "string option"
  content :: "bytes option"

datatype get_result = Response response | RaisesException | RaisesKeyboardInterrupt

record tag =
  tag_name :: string
  tag_attrs :: "(string \<times> string) list"

record env =
  PIL_AVAILABLE :: bool
  robotparser_available :: bool
  can_fetch :: "string \<Rightarrow> string \<Rightarrow> bool option"
  requests_get_text :: "string \<Rightarrow> string option"
  BeautifulSoup :: "string \<Rightarrow> tag list"
  urljoin :: "string \<Rightarrow> string \<Rightarrow> string option"
  set_order :: "string list \<Rightarrow> string list"
  urlparse :: "string \<Rightarrow> parse_result option"
  splitext_ext :: "string \<Rightarrow> string"
  guess_extension :: "string \<Rightarrow> string option"
  sha1_hexdigest :: "string \<Rightarrow> string"
  makedirs :: "string \<Rightarrow> bool"
  session_get :: "nat \<Rightarrow> string \<Rightarrow> get_result"
  image_size :: "bytes \<Rightarrow> (int \<times> int) option"
  write_file :: "string \<Rightarrow> bytes \<Rightarrow> bool"

text \<open>
  \<^item> \<open>PIL_AVAILABLE\<close>: the module-level flag set by the guarded import of Pillow.
  \<^item> \<open>robotparser_available\<close>: whether the guarded import of \<^verbatim>\<open>urllib.robotparser\<close>
    succeeded (\<^verbatim>\<open>robotparser is not None\<close>).
  \<^item> \<open>can_fetch ua u\<close>: the answer of the robots.txt of \<open>u\<close>'s site for user agent \<open>ua\<close>,
    \<open>None\<close> when reading or parsing it raises.
  \<^item> \<open>requests_get_text u\<close>: the text of the page at \<open>u\<close>, \<open>None\<close> when \<^verbatim>\<open>requests.get\<close>
    or \<^verbatim>\<open>raise_for_status\<close> raises.
  \<^item> \<open>BeautifulSoup h\<close>: the tags of the parse of the markup \<open>h\<close>, in document order, each
    with its name and its attributes (every attribute once, as in the parser's dict).
  \<^item> \<open>urljoin b r\<close>: \<^verbatim>\<open>urllib.parse.urljoin(b, r)\<close>, \<open>None\<close> when it raises ValueError.
  \<^item> \<open>set_order xs\<close>: the order in which Python iterates over the \<^verbatim>\<open>set\<close> obtained by
    adding the strings \<open>xs\<close> one after the other to an empty set. The language fixes only
    that every element comes once; the order follows the interpreter's string hashes.
  \<^item> \<open>urlparse u\<close>: the netloc and path of \<^verbatim>\<open>urllib.parse.urlparse(u)\<close>, \<open>None\<close>
    when it raises ValueError.
  \<^item> \<open>splitext_ext p\<close>: \<^verbatim>\<open>os.path.splitext(p)[1]\<close>.
  \<^item> \<open>guess_extension t\<close>: \<^verbatim>\<open>mimetypes.guess_extension(t)\<close>, \<open>None\<close> for Python's None.
  \<^item> \<open>sha1_hexdigest s\<close>: \<^verbatim>\<open>hashlib.sha1(s.encode("utf-8")).hexdigest()\<close>.
  \<^item> \<open>makedirs d\<close>: whether \<^verbatim>\<open>os.makedirs(d, exist_ok=True)\<close> returns without raising.
  \<^item> \<open>session_get i u\<close>: what \<^verbatim>\<open>session.get(u, stream=True, timeout=...)\<close> does for the
    \<open>i\<close>-th candidate (numbered from 1 as \<^verbatim>\<open>enumerate\<close> does): a response, an exception,
    or the user's interrupt (the interrupt is modelled at the request, where the loop
    waits). The field \<open>content\<close> of a response is \<open>None\<close> when reading
    \<^verbatim>\<open>resp.content\<close> raises.
  \<^item> \<open>image_size b\<close>: \<^verbatim>\<open>Image.open(BytesIO(b)).size\<close>, \<open>None\<close> when Pillow raises.
  \<^item> \<open>write_file p b\<close>: whether opening \<open>p\<close> for writing and writing \<open>b\<close> completes.
\<close>

section \<open>String helpers of Python\<close>

definition lower_char :: "char \<Rightarrow> char" where
  "lower_char c =
     (let n = (of_char c :: nat)
      in if (65 \<le> n \<and> n \<le> 90) \<or> (192 \<le> n \<and> n \<le> 222 \<and> n \<noteq> 215)
         then char_of (n + 32) else c)"

definition lower :: "string \<Rightarrow> string" where
  "lower s = map lower_char s"

definition isspace :: "char \<Rightarrow> bool" where
  "isspace c =
     (let n = (of_char c :: nat)
      in (9 \<le> n \<and> n \<le> 13) \<or> (28 \<le> n \<and> n \<le> 32) \<or> n = 133 \<or> n = 160)"

definition strip_chars :: "(char \<Rightarrow> bool) \<Rightarrow> string \<Rightarrow> string" where
  "strip_chars p s = rev (dropWhile p (rev (dropWhile p s)))"

definition strip :: "string \<Rightarrow> string" where
  "strip s = strip_chars isspace s"

section \<open>Helpers of the download loop\<close>

text \<open>
  \<^verbatim>\<open>
  def content_type_is_image(resp):
      ctype = resp.headers.get("Content-Type", "").lower()
      return ctype.startswith("image/")
  \<close>
\<close>

definition header_content_type :: "response \<Rightarrow> string" where
  "header_content_type resp = (case content_type resp of None \<Rightarrow> [] | Some s \<Rightarrow> s)"

definition content_type_is_image :: "response \<Rightarrow> bool" where
  "content_type_is_image resp = prefix ''image/'' (lower (header_content_type resp))"

text \<open>
  \<^verbatim>\<open>
  def infer_extension(resp, url):
      ext = os.path.splitext(urlparse(url).path)[1].lower()
      if ext:
          return ext
      ctype = resp.headers.get("Content-Type", "").lower()
      if ctype:
          ext = mimetypes.guess_extension(ctype.split(";")[0].strip())
          if ext:
              return ext
      return ".jpg"
  \<close>
  \<open>None\<close> is the ValueError of \<^verbatim>\<open>urlparse\<close>.
\<close>

definition infer_extension :: "env \<Rightarrow> response \<Rightarrow> string \<Rightarrow> string option" where
  "infer_extension E resp url =
     (case urlparse E url of
        None \<Rightarrow> None
      | Some p \<Rightarrow>
          (let ext = lower (splitext_ext E (path p))
           in if ext \<noteq> [] then Some ext
              else (let ctype = lower (header_content_type resp)
                    in if ctype \<noteq> []
                       then (case guess_extension E
                                    (strip (takeWhile (\<lambda>c. c \<noteq> CHR '';'') ctype)) of
                               Some e \<Rightarrow> if e \<noteq> [] then Some e else Some ''.jpg''
                             | None \<Rightarrow> Some ''.jpg'')
                       else Some ''.jpg'')))"

text \<open>
  \<^verbatim>\<open>
  def same_domain(base_url, target_url):
      b = urlparse(base_url).netloc
      t = urlparse(target_url).netloc
      return b == t or t.endswith("." + b)
  \<close>
\<close>

definition same_domain :: "env \<Rightarrow> string \<Rightarrow> string \<Rightarrow> py_error + bool" where
  "same_domain E base_url target_url =
     (case urlparse E base_url of
        None \<Rightarrow> Inl ValueError
      | Some pb \<Rightarrow>
          (case urlparse E target_url of
             None \<Rightarrow> Inl ValueError
           | Some pt \<Rightarrow>
               (let b = netloc pb; t = netloc pt
                in Inr (b = t \<or> suffix (CHR ''.'' # b) t))))"

text \<open>
  \<^verbatim>\<open>
  def hash_to_name(url, idx, ext):
      h = hashlib.sha1(url.encode("utf-8")).hexdigest()[:12]
      return f"{idx:04d}_{h}{ext}"
  \<close>
  \<open>format_04d\<close> is Python's \<^verbatim>\<open>{idx:04d}\<close>: the decimal digits, a leading minus sign for
  a negative number, zeros after the sign up to a total width of 4.
\<close>

definition digit_char :: "nat \<Rightarrow> char" where
  "digit_char d = ''0123456789'' ! d"

fun decimal :: "nat \<Rightarrow> string" where
  "decimal n = (if n < 10 then [digit_char n] else decimal (n div 10) @ [digit_char (n mod 10)])"

declare decimal.simps [simp del]

definition zero_pad :: "nat \<Rightarrow> string \<Rightarrow> string" where
  "zero_pad w s = replicate (w - length s) (CHR ''0'') @ s"

definition format_04d :: "int \<Rightarrow> string" where
  "format_04d idx =
     (if idx < 0 then CHR ''-'' # zero_pad 3 (decimal (nat (- idx)))
      else zero_pad 4 (decimal (nat idx)))"

definition hash_to_name :: "env \<Rightarrow> string \<Rightarrow> int \<Rightarrow> string \<Rightarrow> string" where
  "hash_to_name E url idx ext =
     (let h = take 12 (sha1_hexdigest E url)
      in format_04d idx @ ''_'' @ h @ ext)"

text \<open>\<^verbatim>\<open>os.path.join(a, b)\<close> of posixpath, for two components.\<close>

definition path_join :: "string \<Rightarrow> string \<Rightarrow> string" where
  "path_join a b =
     (if prefix ''/'' b then b
      else if a = [] \<or> suffix ''/'' a then a @ b
      else a @ ''/'' @ b)"

section \<open>download\_images\<close>

text \<open>
  The parameters of \<^verbatim>\<open>download_images\<close> other than the candidate list. The delay is a
  non-negative duration (the configuration's precondition), so a natural number of time
  units; \<^verbatim>\<open>time.sleep\<close> of a negative number is outside the model.
\<close>

record params =
  base_url :: string
  out_dir :: string
  max_images :: int
  delay :: nat
  timeout :: nat
  only_same_domain :: bool
  min_w :: int
  min_h :: int

text \<open>
  What a run does to the outside world, in order: the requests it sends, the pauses, the
  files it writes and the lines it prints.
\<close>

datatype event =
    MakeDirs string
  | Get nat string
  | Sleep nat
  | Write string bytes
  | PrintSaved nat string string
  | PrintSkip string
  | PrintInterrupted

datatype outcome = Saved | Skipped | Interrupted

text \<open>
  The \<^verbatim>\<open>try\<close> block of the loop body for candidate \<open>i\<close>, with its two handlers:
  \<^verbatim>\<open>
  try:
      resp = session.get(img_url, stream=True, timeout=timeout)
      if resp.status_code >= 400:
          continue
      if not content_type_is_image(resp):
          if not PIL_AVAILABLE:
              continue
      content = resp.content
      ext = infer_extension(resp, img_url)
      if PIL_AVAILABLE and (min_w or min_h):
          try:
              im = Image.open(BytesIO(content))
              w, h = im.size
              if (min_w and w < min_w) or (min_h and h < min_h):
                  time.sleep(delay)
                  continue
          except Exception:
              pass
      filename = hash_to_name(img_url, count + 1, ext)
      filepath = os.path.join(out_dir, filename)
      with open(filepath, "wb") as f:
          f.write(content)
      count += 1
      print(f"[{count}] Saved {img_url} -> {filepath}")
      time.sleep(delay)
  except KeyboardInterrupt:
      print("Interrupted by user.")
      break
  except Exception as e:
      print(f"Skip {img_url} ({e})")
      time.sleep(delay)
      continue
  \<close>
  An integer used as a condition (\<^verbatim>\<open>min_w or min_h\<close>, \<^verbatim>\<open>min_w and ...\<close>) counts as true
  when it is not zero: \<open>nonzero\<close>.
  The result is the events of the iteration and how it ends: \<open>Saved\<close> (count incremented),
  \<open>Skipped\<close> (a \<^verbatim>\<open>continue\<close>) or \<open>Interrupted\<close> (the \<^verbatim>\<open>break\<close> of the first handler).
\<close>

definition nonzero :: "int \<Rightarrow> bool" where
  "nonzero n = (n \<noteq> 0)"

definition too_small :: "params \<Rightarrow> int \<times> int \<Rightarrow> bool" where
  "too_small P sz =
     (case sz of (w, h) \<Rightarrow>
        (nonzero (min_w P) \<and> w < min_w P) \<or> (nonzero (min_h P) \<and> h < min_h P))"

definition on_exception :: "params \<Rightarrow> nat \<Rightarrow> string \<Rightarrow> event list \<times> outcome" where
  "on_exception P i img_url = ([Get i img_url, PrintSkip img_url, Sleep (delay P)], Skipped)"

definition try_block :: "env \<Rightarrow> params \<Rightarrow> nat \<Rightarrow> nat \<Rightarrow> string \<Rightarrow> event list \<times> outcome" where
  "try_block E P i count img_url =
     (case session_get E i img_url of
        RaisesKeyboardInterrupt \<Rightarrow> ([Get i img_url, PrintInterrupted], Interrupted)
      | RaisesException \<Rightarrow> on_exception P i img_url
      | Response resp \<Rightarrow>
          if status_code resp \<ge> 400 then ([Get i img_url], Skipped)
          else if \<not> content_type_is_image resp \<and> \<not> PIL_AVAILABLE E
          then ([Get i img_url], Skipped)
          else
            (case content resp of
               None \<Rightarrow> on_exception P i img_url
             | Some body \<Rightarrow>
                 (case infer_extension E resp img_url of
                    None \<Rightarrow> on_exception P i img_url
                  | Some ext \<Rightarrow>
                      if PIL_AVAILABLE E \<and> (nonzero (min_w P) \<or> nonzero (min_h P)) \<and>
                         (case image_size E body of
                            Some sz \<Rightarrow> too_small P sz
                          | None \<Rightarrow> False)
                      then ([Get i img_url, Sleep (delay P)], Skipped)
                      else
                        (let filename = hash_to_name E img_url (int count + 1) ext;
                             filepath = path_join (out_dir P) filename
                         in if write_file E filepath body
                            then ([Get i img_url, Write filepath body,
                                   PrintSaved (count + 1) img_url filepath,
                                   Sleep (delay P)], Saved)
                            else on_exception P i img_url))))"

text \<open>
  The loop over \<^verbatim>\<open>enumerate(img_urls, start=1)\<close>:
  \<^verbatim>\<open>
  for i, img_url in enumerate(img_urls, start=1):
      if count >= max_images:
          break
      if only_same_domain and not same_domain(base_url, img_url):
          continue
      try: ...
  return count
  \<close>
  \<^verbatim>\<open>same_domain\<close> is called outside the \<^verbatim>\<open>try\<close>, so its ValueError leaves the function.
\<close>

definition then_events :: "event list \<Rightarrow> event list \<times> 'a \<Rightarrow> event list \<times> 'a" where
  "then_events evs r = (evs @ fst r, snd r)"

fun download_loop ::
  "env \<Rightarrow> params \<Rightarrow> nat \<Rightarrow> nat \<Rightarrow> string list \<Rightarrow> event list \<times> (py_error + nat)" where
  "download_loop E P i count [] = ([], Inr count)"
| "download_loop E P i count (img_url # rest) =
     (if int count \<ge> max_images P then ([], Inr count)
      else
        (case (if only_same_domain P then same_domain E (base_url P) img_url else Inr True) of
           Inl e \<Rightarrow> ([], Inl e)
         | Inr False \<Rightarrow> download_loop E P (i + 1) count rest
         | Inr True \<Rightarrow>
             (case try_block E P i count img_url of
                (evs, Saved) \<Rightarrow> then_events evs (download_loop E P (i + 1) (count + 1) rest)
              | (evs, Skipped) \<Rightarrow> then_events evs (download_loop E P (i + 1) count rest)
              | (evs, Interrupted) \<Rightarrow> (evs, Inr count))))"

text \<open>
  \<^verbatim>\<open>
  def download_images(img_urls, base_url, out_dir, max_images, delay, timeout,
                      only_same_domain, min_w, min_h):
      ensure_dir(out_dir)
      count = 0
      ...
      return count
  \<close>
\<close>

definition download_images :: "env \<Rightarrow> string list \<Rightarrow> params \<Rightarrow> event list \<times> (py_error + nat)" where
  "download_images E img_urls P =
     (if makedirs E (out_dir P)
      then then_events [MakeDirs (out_dir P)] (download_loop E P 1 0 img_urls)
      else ([], Inl OSError))"

section \<open>extract\_image\_urls\<close>

text \<open>
  The parsed document is queried with \<^verbatim>\<open>find_all(name)\<close>, \<^verbatim>\<open>find(name, attrs={a: v})\<close>
  and \<^verbatim>\<open>tag.get(a)\<close>.
\<close>

definition tag_get :: "tag \<Rightarrow> string \<Rightarrow> string option" where
  "tag_get t a = map_of (tag_attrs t) a"

definition find_all :: "tag list \<Rightarrow> string \<Rightarrow> tag list" where
  "find_all soup n = filter (\<lambda>t. tag_name t = n) soup"

definition find_tag :: "tag list \<Rightarrow> string \<Rightarrow> string \<Rightarrow> string \<Rightarrow> tag option" where
  "find_tag soup n a v = find (\<lambda>t. tag_name t = n \<and> tag_get t a = Some v) soup"

text \<open>\<^verbatim>\<open>s.split(c)\<close> for a one-character separator: never an empty list.\<close>

fun split_on :: "char \<Rightarrow> string \<Rightarrow> string list" where
  "split_on c [] = [[]]"
| "split_on c (x # xs) =
     (if x = c then [] # split_on c xs
      else (case split_on c xs of
              w # ws \<Rightarrow> (x # w) # ws
            | [] \<Rightarrow> [[x]]))"

text \<open>
  The references one \<^verbatim>\<open>img\<close> element contributes, in the order the code appends them:
  \<^verbatim>\<open>
  candidates = []
  for attr in ("src", "data-src", "data-original", "data-lazy", "data-srcset",
               "data-original-src"):
      val = img.get(attr)
      if val:
          candidates.append(val)
  srcset = img.get("srcset") or img.get("data-srcset")
  if srcset:
      for part in srcset.split(","):
          url_part = part.strip().split(" ")[0].strip()
          if url_part:
              candidates.append(url_part)
  \<close>
\<close>

definition img_attrs :: "string list" where
  "img_attrs = [''src'', ''data-src'', ''data-original'', ''data-lazy'', ''data-srcset'',
                ''data-original-src'']"

definition truthy :: "string option \<Rightarrow> bool" where
  "truthy v = (case v of None \<Rightarrow> False | Some s \<Rightarrow> s \<noteq> [])"

definition srcset_parts :: "string \<Rightarrow> string list" where
  "srcset_parts srcset =
     concat (map (\<lambda>part.
                    (let url_part = strip (takeWhile (\<lambda>c. c \<noteq> CHR '' '') (strip part))
                     in if url_part \<noteq> [] then [url_part] else []))
                 (split_on (CHR '','') srcset))"

definition img_candidates :: "tag \<Rightarrow> string list" where
  "img_candidates img =
     (let candidates =
            concat (map (\<lambda>attr. (let val = tag_get img attr
                                  in if truthy val then [the val] else []))
                        img_attrs);
          srcset = (if truthy (tag_get img ''srcset'') then tag_get img ''srcset''
                    else tag_get img ''data-srcset'')
      in if truthy srcset then candidates @ srcset_parts (the srcset) else candidates)"

text \<open>
  \<^verbatim>\<open>
  for prop in ("og:image", "twitter:image", "twitter:image:src"):
      tag = soup.find("meta", attrs={"property": prop}) or soup.find("meta", attrs={"name": prop})
      if tag and tag.get("content"):
          urls.add(urljoin(base_url, tag["content"].strip()))
  \<close>
\<close>

definition meta_props :: "string list" where
  "meta_props = [''og:image'', ''twitter:image'', ''twitter:image:src'']"

definition find_meta :: "tag list \<Rightarrow> string \<Rightarrow> tag option" where
  "find_meta soup prop =
     (case find_tag soup ''meta'' ''property'' prop of
        Some t \<Rightarrow> Some t
      | None \<Rightarrow> find_tag soup ''meta'' ''name'' prop)"

definition meta_refs :: "tag list \<Rightarrow> string list" where
  "meta_refs soup =
     concat (map (\<lambda>prop.
                    (case find_meta soup prop of
                       None \<Rightarrow> []
                     | Some t \<Rightarrow>
                         if truthy (tag_get t ''content'') then [strip (the (tag_get t ''content''))]
                         else []))
                 meta_props)"

text \<open>
  The pattern of the inline-style scan is the raw string literal
  \<^verbatim>\<open>r'url\\(([^)]+)\\)'\<close>. In a raw literal the two backslashes stay two characters, and
  the regular expression reads them as one escaped, literal backslash. The pattern is
  therefore: the letters \<^verbatim>\<open>url\<close> (in any case, by \<^verbatim>\<open>re.IGNORECASE\<close>), a backslash, then
  group 1, which holds group 2 (one or more characters other than a closing parenthesis,
  as many as possible) followed by a backslash. \<open>style_match\<close> matches it at the start of
  a string and returns the two groups and the text after the match; \<open>findall_style\<close> is
  \<^verbatim>\<open>re.findall\<close>: the leftmost matches, not overlapping, each as the pair of its groups.
\<close>

definition backslash :: char where
  "backslash = CHR 0x5C"

definition style_match :: "string \<Rightarrow> (string \<times> string \<times> string) option" where
  "style_match s =
     (if lower (take 3 s) = ''url'' \<and> take 1 (drop 3 s) = [backslash]
      then (let run = takeWhile (\<lambda>c. c \<noteq> CHR '')'') (drop 4 s);
                after_last = takeWhile (\<lambda>c. c \<noteq> backslash) (rev (drop 1 run))
            in if backslash \<in> set (drop 1 run)
               then (let k = length run - length after_last - 1
                     in Some (take (k + 1) run, take k run, drop (4 + k + 1) s))
               else None)
      else None)"

function findall_style :: "string \<Rightarrow> (string \<times> string) list" where
  "findall_style s =
     (if s = [] then []
      else (case style_match s of
              Some (g1, g2, rest) \<Rightarrow> (g1, g2) # findall_style rest
            | None \<Rightarrow> findall_style (tl s)))"
  by pat_completeness auto
termination
  by (relation "measure length") (auto simp: style_match_def Let_def split: if_splits)

declare findall_style.simps [simp del]

text \<open>\<^verbatim>\<open>list(dict.fromkeys(xs))\<close>: the first occurrence of every element, in order.\<close>

fun fromkeys_from :: "'a list \<Rightarrow> 'a list \<Rightarrow> 'a list" where
  "fromkeys_from seen [] = []"
| "fromkeys_from seen (x # xs) =
     (if x \<in> set seen then fromkeys_from seen xs else x # fromkeys_from (x # seen) xs)"

definition dict_fromkeys :: "'a list \<Rightarrow> 'a list" where
  "dict_fromkeys xs = fromkeys_from [] xs"

text \<open>Resolving a list of references in turn; the first ValueError ends it.\<close>

fun join_all :: "env \<Rightarrow> string \<Rightarrow> string list \<Rightarrow> py_error + string list" where
  "join_all E base [] = Inr []"
| "join_all E base (c # cs) =
     (case urljoin E base c of
        None \<Rightarrow> Inl ValueError
      | Some full \<Rightarrow>
          (case join_all E base cs of
             Inl e \<Rightarrow> Inl e
           | Inr fulls \<Rightarrow> Inr (full # fulls)))"

text \<open>
  The references in the order \<^verbatim>\<open>extract_image_urls\<close> adds their resolutions to the set
  \<^verbatim>\<open>urls\<close>: for every \<^verbatim>\<open>img\<close> in document order its candidates, then the metadata.
\<close>

definition discovered_refs :: "tag list \<Rightarrow> string list" where
  "discovered_refs soup = concat (map img_candidates (find_all soup ''img'')) @ meta_refs soup"

text \<open>
  \<^verbatim>\<open>
  def extract_image_urls(html, base_url):
      soup = BeautifulSoup(html, "html.parser")
      urls = set()
      for img in soup.find_all("img"):
          ...
          for c in candidates:
              full = urljoin(base_url, c)
              urls.add(full)
      for prop in (...):
          ...
      style_urls = set(re.findall(r'url\\(([^)]+)\\)', html, flags=re.IGNORECASE))
      for su in style_urls:
          su = su.strip('\'"')
          if su and not su.lower().startswith("data:"):
              urls.add(urljoin(base_url, su))
      allowed_exts = {...}
      filtered = []
      for u in urls:
          path = urlparse(u).path
          ext = os.path.splitext(path)[1].lower()
          if ext and ext in allowed_exts:
              filtered.append(u)
          else:
              filtered.append(u)
      return list(dict.fromkeys(filtered))  # preserve order, dedupe
  \<close>
  The pattern has two groups, so \<^verbatim>\<open>re.findall\<close> returns pairs, and the first statement
  of the style loop, \<^verbatim>\<open>su.strip(...)\<close> on a tuple, raises AttributeError: the loop body
  runs only to that point, and only when there is a match. Both branches of the extension
  test append \<open>u\<close>, so \<^verbatim>\<open>filtered\<close> is the set \<^verbatim>\<open>urls\<close> in its iteration order; only the
  call of \<^verbatim>\<open>urlparse\<close> can make a difference, by raising.
\<close>

definition extract_image_urls :: "env \<Rightarrow> string \<Rightarrow> string \<Rightarrow> py_error + string list" where
  "extract_image_urls E html base =
     (let soup = BeautifulSoup E html
      in case join_all E base (discovered_refs soup) of
           Inl e \<Rightarrow> Inl e
         | Inr added \<Rightarrow>
             if findall_style html \<noteq> [] then Inl AttributeError
             else (let filtered = set_order E added
                   in if list_ex (\<lambda>u. urlparse E u = None) filtered then Inl ValueError
                      else Inr (dict_fromkeys filtered)))"

section \<open>main\<close>

text \<open>
  \<^verbatim>\<open>
  def robots_allows(url, user_agent):
      if robotparser is None:
          return True
      try:
          ...
          rp.read()
          return rp.can_fetch(user_agent, url)
      except Exception:
          return True

  def fetch_html(url, timeout):
      r = requests.get(url, headers=DEFAULT_HEADERS, timeout=timeout)
      r.raise_for_status()
      return r.text
  \<close>
\<close>

definition user_agent :: string where
  "user_agent = ''Mozilla/5.0 (compatible; ImageScraper/1.0; +https://example.com/bot)''"

definition robots_allows :: "env \<Rightarrow> string \<Rightarrow> string \<Rightarrow> bool" where
  "robots_allows E url ua =
     (if \<not> robotparser_available E then True
      else (case can_fetch E ua url of Some b \<Rightarrow> b | None \<Rightarrow> True))"

definition fetch_html :: "env \<Rightarrow> string \<Rightarrow> nat \<Rightarrow> string option" where
  "fetch_html E url tmo = requests_get_text E url"

text \<open>The command line, as \<^verbatim>\<open>parse_args\<close> returns it.\<close>

record cli_args =
  arg_url :: string
  arg_out :: string
  arg_max :: int
  arg_delay :: nat
  arg_timeout :: nat
  arg_same_domain :: bool
  arg_min_width :: int
  arg_min_height :: int
  arg_no_robots :: bool

datatype report =
    RobotsDisallowed
  | FailedToFetchPage
  | FoundCandidates nat
  | Done nat string

text \<open>
  \<^verbatim>\<open>
  def main():
      args = parse_args()
      if not args.no_robots:
          if not robots_allows(args.url, DEFAULT_HEADERS["User-Agent"]):
              print("robots.txt disallows scraping this URL ...")
              return
      try:
          html = fetch_html(args.url, timeout=args.timeout)
      except Exception as e:
          print(f"Failed to fetch page: {e}")
          return
      img_urls = extract_image_urls(html, base_url=args.url)
      print(f"Found {len(img_urls)} candidate image URLs. Starting downloads...")
      saved = download_images(img_urls, base_url=args.url, out_dir=args.out, ...)
      print(f"Done. Saved {saved} image(s) to '{args.out}'.")
  \<close>
  A run of \<open>main\<close> is the list of its steps: a line it prints itself (\<open>Report\<close>) or an
  event of \<^verbatim>\<open>download_images\<close> (\<open>Download\<close>); it ends normally or with an uncaught error.
\<close>

datatype step = Report report | Download event

definition params_of :: "cli_args \<Rightarrow> params" where
  "params_of a =
     \<lparr>base_url = arg_url a, out_dir = arg_out a, max_images = arg_max a,
      delay = arg_delay a, timeout = arg_timeout a, only_same_domain = arg_same_domain a,
      min_w = arg_min_width a, min_h = arg_min_height a\<rparr>"

definition main :: "env \<Rightarrow> cli_args \<Rightarrow> step list \<times> (py_error + unit)" where
  "main E a =
     (if \<not> arg_no_robots a \<and> \<not> robots_allows E (arg_url a) user_agent
      then ([Report RobotsDisallowed], Inr ())
      else
        (case fetch_html E (arg_url a) (arg_timeout a) of
           None \<Rightarrow> ([Report FailedToFetchPage], Inr ())
         | Some html \<Rightarrow>
             (case extract_image_urls E html (arg_url a) of
                Inl e \<Rightarrow> ([], Inl e)
              | Inr img_urls \<Rightarrow>
                  (case download_images E img_urls (params_of a) of
                     (evs, Inl e) \<Rightarrow>
                       (Report (FoundCandidates (length img_urls)) # map Download evs, Inl e)
                   | (evs, Inr saved) \<Rightarrow>
                       (Report (FoundCandidates (length img_urls)) # map Download evs
                          @ [Report (Done saved (arg_out a))],
                        Inr ())))))"

section \<open>Reading a run\<close>

text \<open>The files a run wrote and the candidates it requested, in order.\<close>

fun written :: "event list \<Rightarrow> string list" where
  "written [] = []"
| "written (Write p b # tr) = p # written tr"
| "written (e # tr) = written tr"

fun fetched :: "event list \<Rightarrow> nat list" where
  "fetched [] = []"
| "fetched (Get i u # tr) = i # fetched tr"
| "fetched (e # tr) = fetched tr"

text \<open>
  \<open>capped m c tr\<close>: in the run \<open>tr\<close>, started with \<open>c\<close> files saved, every request is sent
  while fewer than \<open>m\<close> files are saved.
\<close>

fun capped :: "int \<Rightarrow> nat \<Rightarrow> event list \<Rightarrow> bool" where
  "capped m c [] = True"
| "capped m c (Get i u # tr) = (int c < m \<and> capped m c tr)"
| "capped m c (Write p b # tr) = capped m (c + 1) tr"
| "capped m c (e # tr) = capped m c tr"

section \<open>A library for the examples\<close>

text \<open>
  The examples need one concrete \<open>env\<close>. Its functions follow the libraries on the
  plain inputs of the examples: URLs of the form scheme://host/path without control
  characters, references that are absolute, start with a slash, or are a plain relative
  path without dot segments.
\<close>

definition is_scheme_char :: "char \<Rightarrow> bool" where
  "is_scheme_char c =
     (let n = (of_char c :: nat)
      in (97 \<le> n \<and> n \<le> 122) \<or> (65 \<le> n \<and> n \<le> 90) \<or> (48 \<le> n \<and> n \<le> 57)
         \<or> c = CHR ''+'' \<or> c = CHR ''-'' \<or> c = CHR ''.'')"

definition is_ascii_alpha :: "char \<Rightarrow> bool" where
  "is_ascii_alpha c =
     (let n = (of_char c :: nat) in (97 \<le> n \<and> n \<le> 122) \<or> (65 \<le> n \<and> n \<le> 90))"

definition url_scheme :: "string \<Rightarrow> string" where
  "url_scheme url =
     (let s = takeWhile (\<lambda>c. c \<noteq> CHR '':'') url
      in if s \<noteq> [] \<and> length s < length url \<and> is_ascii_alpha (hd s) \<and> list_all is_scheme_char s
         then s else [])"

definition after_scheme :: "string \<Rightarrow> string" where
  "after_scheme url =
     (if url_scheme url = [] then url else drop (length (url_scheme url) + 1) url)"

definition is_delim :: "char \<Rightarrow> bool" where
  "is_delim c = (c = CHR ''/'' \<or> c = CHR ''?'' \<or> c = CHR ''#'')"

definition plain_urlparse :: "string \<Rightarrow> parse_result option" where
  "plain_urlparse url =
     (let rest = after_scheme url;
          nl = (if prefix ''//'' rest then takeWhile (\<lambda>c. \<not> is_delim c) (drop 2 rest) else []);
          after = (if prefix ''//'' rest then dropWhile (\<lambda>c. \<not> is_delim c) (drop 2 rest)
                   else rest)
      in if (CHR ''['' \<in> set nl) \<noteq> (CHR '']'' \<in> set nl) then None
         else Some \<lparr>netloc = nl,
                    path = takeWhile (\<lambda>c. c \<noteq> CHR ''?'' \<and> c \<noteq> CHR ''#'') after\<rparr>)"

definition plain_urljoin :: "string \<Rightarrow> string \<Rightarrow> string option" where
  "plain_urljoin b r =
     (if b = [] then Some r
      else if r = [] then Some b
      else (case (plain_urlparse b, plain_urlparse r) of
              (Some pb, Some pr) \<Rightarrow>
                (let root = lower (url_scheme b) @ ''://'' @ netloc pb;
                     dir = rev (dropWhile (\<lambda>c. c \<noteq> CHR ''/'') (rev (path pb)))
                 in if url_scheme r \<noteq> [] then Some r
                    else if prefix ''//'' r then Some (lower (url_scheme b) @ '':'' @ r)
                    else if prefix ''/'' r then Some (root @ r)
                    else Some (root @ (if dir = [] then ''/'' else dir) @ r))
            | _ \<Rightarrow> None))"

definition posix_splitext_ext :: "string \<Rightarrow> string" where
  "posix_splitext_ext p =
     (let base = rev (takeWhile (\<lambda>c. c \<noteq> CHR ''/'') (rev p))
      in if CHR ''.'' \<notin> set base then []
         else (let ext = CHR ''.'' # rev (takeWhile (\<lambda>c. c \<noteq> CHR ''.'') (rev base));
                   stem = take (length base - length ext) base
               in if list_all (\<lambda>c. c = CHR ''.'') stem then [] else ext))"

definition sha1_table :: "string \<Rightarrow> string" where
  "sha1_table s =
     (case map_of
        [(''https://site.test/img1.png'', ''799a6930a5c8977aa209882b75d3b19f6063046c''),
         (''https://site.test/img2.png'', ''19790b13491ff6e277c7abd96b84c7666d36fdb8''),
         (''https://site.test/img3.png'', ''3a4e269b7e8bb790f77d4a4f82bbb6c91605f07a''),
         (''https://site.test/a.png'', ''3478e68553c1bf55175703248eb27342cd6c20ab''),
         (''https://site.test/page'', ''70119120de42247c152d737d2aa1b6cdff2a1bf7''),
         (''https://site.test/logo.svg'', ''dc7a31ee55bcdd1dfda850e94c0b3e99aa92b33a'')] s of
        Some h \<Rightarrow> h
      | None \<Rightarrow> replicate 40 (CHR ''0''))"

definition lib_env :: env where
  "lib_env =
     \<lparr>PIL_AVAILABLE = False,
      robotparser_available = True,
      can_fetch = (\<lambda>ua u. Some True),
      requests_get_text = (\<lambda>u. None),
      BeautifulSoup = (\<lambda>h. []),
      urljoin = plain_urljoin,
      set_order = dict_fromkeys,
      urlparse = plain_urlparse,
      splitext_ext = posix_splitext_ext,
      guess_extension = map_of [(''image/png'', ''.png''), (''image/jpeg'', ''.jpg''),
                                (''image/webp'', ''.webp''), (''text/html'', ''.html'')],
      sha1_hexdigest = sha1_table,
      makedirs = (\<lambda>d. True),
      session_get = (\<lambda>i u. RaisesException),
      image_size = (\<lambda>b. None),
      write_file = (\<lambda>p b. True)\<rparr>"

definition lib_params :: params where
  "lib_params =
     \<lparr>base_url = ''https://site.test/page'', out_dir = ''images'', max_images = 500,
      delay = 3, timeout = 20, only_same_domain = False, min_w = 0, min_h = 0\<rparr>"

definition png_response :: response where
  "png_response =
     \<lparr>status_code = 200, content_type = Some ''image/png'', content = Some ''PNG''\<rparr>"

text \<open>
  The cap example: ten candidates, every one answered with a PNG image, and a maximum of
  three images.
\<close>

definition cap_env :: env where
  "cap_env = lib_env\<lparr>session_get := (\<lambda>i u. Response png_response)\<rparr>"

definition cap_params :: params where
  "cap_params = lib_params\<lparr>max_images := 3\<rparr>"

definition cap_urls :: "string list" where
  "cap_urls = [''https://site.test/img1.png'', ''https://site.test/img2.png'',
               ''https://site.test/img3.png'', ''https://site.test/img4.png'',
               ''https://site.test/img5.png'', ''https://site.test/img6.png'',
               ''https://site.test/img7.png'', ''https://site.test/img8.png'',
               ''https://site.test/img9.png'', ''https://site.test/img10.png'']"

text \<open>
  Responses for the examples of the download loop: a page of markup served as
  \<^verbatim>\<open>text/html\<close>, a vector image that Pillow cannot open, and a missing resource.
\<close>

definition html_response :: response where
  "html_response =
     \<lparr>status_code = 200, content_type = Some ''text/html; charset=utf-8'',
      content = Some ''<html></html>''\<rparr>"

definition pillow_env :: env where
  "pillow_env = lib_env\<lparr>PIL_AVAILABLE := True, session_get := (\<lambda>i u. Response html_response)\<rparr>"

definition no_pillow_env :: env where
  "no_pillow_env = lib_env\<lparr>session_get := (\<lambda>i u. Response html_response)\<rparr>"

definition svg_response :: response where
  "svg_response =
     \<lparr>status_code = 200, content_type = Some ''image/svg+xml'', content = Some ''<svg/>''\<rparr>"

definition svg_env :: env where
  "svg_env = lib_env\<lparr>PIL_AVAILABLE := True, session_get := (\<lambda>i u. Response svg_response)\<rparr>"

definition min_width_params :: params where
  "min_width_params = lib_params\<lparr>min_w := 512\<rparr>"

definition not_found_response :: response where
  "not_found_response =
     \<lparr>status_code = 404, content_type = Some ''text/html'', content = Some ''Not Found''\<rparr>"

definition not_found_env :: env where
  "not_found_env = lib_env\<lparr>session_get := (\<lambda>i u. Response not_found_response)\<rparr>"

text \<open>Reading a string of decimal digits back as a number.\<close>

definition digit_value :: "char \<Rightarrow> nat" where
  "digit_value c = of_char c - 48"

definition decimal_value :: "string \<Rightarrow> nat" where
  "decimal_value s = foldl (\<lambda>a c. 10 * a + digit_value c) 0 s"



text \<open>
  Pages for the examples of the extraction. The markup is given together with the tags
  its parse has; the double quote is written by its code. \<open>e2e_html\<close> is the end-to-end
  scenario: an \<^verbatim>\<open>img\<close> with a source, an \<^verbatim>\<open>img\<close> with a source list of two entries, and
  a preview image in the metadata. \<open>seed0_order\<close> is the order in which CPython 3.11
  started with \<^verbatim>\<open>PYTHONHASHSEED=0\<close> iterates over the set of the four URLs of that
  scenario.
\<close>

definition dq :: string where
  "dq = [CHR 0x22]"

definition page_url :: string where
  "page_url = ''https://site.test/page''"

definition e2e_html :: string where
  "e2e_html =
     ''<img src='' @ dq @ ''/a.png'' @ dq @ ''>'' @
     ''<img srcset='' @ dq @ ''/b.png 1x, /c.png 2x'' @ dq @ ''>'' @
     ''<meta property='' @ dq @ ''og:image'' @ dq @
        '' content='' @ dq @ ''https://cdn.test/d.png'' @ dq @ ''>''"

definition e2e_soup :: "tag list" where
  "e2e_soup =
     [\<lparr>tag_name = ''img'', tag_attrs = [(''src'', ''/a.png'')]\<rparr>,
      \<lparr>tag_name = ''img'', tag_attrs = [(''srcset'', ''/b.png 1x, /c.png 2x'')]\<rparr>,
      \<lparr>tag_name = ''meta'',
       tag_attrs = [(''property'', ''og:image''), (''content'', ''https://cdn.test/d.png'')]\<rparr>]"

definition seed0_order :: "string list \<Rightarrow> string list" where
  "seed0_order xs =
     (if dict_fromkeys xs =
           [''https://site.test/a.png'', ''https://site.test/b.png'',
            ''https://site.test/c.png'', ''https://cdn.test/d.png'']
      then [''https://site.test/b.png'', ''https://site.test/a.png'',
            ''https://cdn.test/d.png'', ''https://site.test/c.png'']
      else dict_fromkeys xs)"

definition e2e_env :: env where
  "e2e_env = lib_env\<lparr>BeautifulSoup := (\<lambda>h. if h = e2e_html then e2e_soup else []),
                      set_order := seed0_order\<rparr>"

definition style_html :: string where
  "style_html =
     ''<div style='' @ dq @ ''background-image: url(/bg.png)'' @ dq @ ''></div>''"

definition style_soup :: "tag list" where
  "style_soup =
     [\<lparr>tag_name = ''div'', tag_attrs = [(''style'', ''background-image: url(/bg.png)'')]\<rparr>]"

definition style_env :: env where
  "style_env = lib_env\<lparr>BeautifulSoup := (\<lambda>h. if h = style_html then style_soup else [])\<rparr>"

definition escaped_html :: string where
  "escaped_html = ''<p>url'' @ [backslash] @ ''/bg.png'' @ [backslash] @ '')</p>''"

definition data_html :: string where
  "data_html = ''<img src='' @ dq @ ''data:image/png;base64,AAAA'' @ dq @ ''>''"

definition data_soup :: "tag list" where
  "data_soup = [\<lparr>tag_name = ''img'', tag_attrs = [(''src'', ''data:image/png;base64,AAAA'')]\<rparr>]"

definition data_env :: env where
  "data_env = lib_env\<lparr>BeautifulSoup := (\<lambda>h. if h = data_html then data_soup else [])\<rparr>"

definition empty_html :: string where
  "empty_html = ''<html><body><p>No pictures here.</p></body></html>''"

definition empty_soup :: "tag list" where
  "empty_soup =
     [\<lparr>tag_name = ''html'', tag_attrs = []\<rparr>, \<lparr>tag_name = ''body'', tag_attrs = []\<rparr>,
      \<lparr>tag_name = ''p'', tag_attrs = []\<rparr>]"

definition empty_env :: env where
  "empty_env = lib_env\<lparr>requests_get_text := (\<lambda>u. if u = page_url then Some empty_html else None),
                        BeautifulSoup := (\<lambda>h. if h = empty_html then empty_soup else [])\<rparr>"

definition default_args :: cli_args where
  "default_args =
     \<lparr>arg_url = page_url, arg_out = ''images'', arg_max = 500, arg_delay = 3,
      arg_timeout = 20, arg_same_domain = False, arg_min_width = 0, arg_min_height = 0,
      arg_no_robots = False\<rparr>"



section \<open>Facts about runs\<close>

lemma then_events_pair: "then_events evs (tr, r) = (evs @ tr, r)"
  by (simp add: then_events_def)

lemma written_append: "written (xs @ ys) = written xs @ written ys"
  by (induction xs rule: written.induct) auto

lemma fetched_append: "fetched (xs @ ys) = fetched xs @ fetched ys"
  by (induction xs rule: fetched.induct) auto

lemma capped_append:
  "capped m c (xs @ ys) = (capped m c xs \<and> capped m (c + length (written xs)) ys)"
  by (induction m c xs rule: capped.induct) auto

lemma capped_no_fetch: "fetched tr = [] \<Longrightarrow> capped m c tr"
  by (induction m c tr rule: capped.induct) auto

lemma try_block_cases:
  "try_block E P i c u = (evs, out) \<Longrightarrow>
     (out = Saved \<and> (\<exists>p b. evs = [Get i u, Write p b, PrintSaved (c + 1) u p, Sleep (delay P)]))
   \<or> (out \<noteq> Saved \<and> written evs = [] \<and> (\<exists>r. evs = Get i u # r \<and> fetched r = []))"
  by (auto simp: try_block_def on_exception_def Let_def
           split: get_result.splits if_splits option.splits)

text \<open>One iteration of the loop, by the way it ends.\<close>

lemma loop_cap:
  "max_images P \<le> int count \<Longrightarrow> download_loop E P i count urls = ([], Inr count)"
  by (cases urls) simp_all

lemma loop_other_domain:
  assumes "\<not> max_images P \<le> int count" and "only_same_domain P"
    and "same_domain E (base_url P) u = Inr False"
    and "download_loop E P (i + 1) count rest = r"
  shows "download_loop E P i count (u # rest) = r"
  using assms by simp

lemma loop_saved:
  assumes "try_block E P i count u = (evs, Saved)"
    and "download_loop E P i' count' rest = (tr, res)"
    and "i' = i + 1" and "count' = count + 1"
    and "\<not> max_images P \<le> int count"
    and "only_same_domain P \<longrightarrow> same_domain E (base_url P) u = Inr True"
  shows "download_loop E P i count (u # rest) = (evs @ tr, res)"
  using assms by (auto simp: then_events_pair)

lemma loop_skipped:
  assumes "try_block E P i count u = (evs, Skipped)"
    and "download_loop E P i' count rest = (tr, res)"
    and "i' = i + 1"
    and "\<not> max_images P \<le> int count"
    and "only_same_domain P \<longrightarrow> same_domain E (base_url P) u = Inr True"
  shows "download_loop E P i count (u # rest) = (evs @ tr, res)"
  using assms by (auto simp: then_events_pair)

lemma loop_interrupted:
  assumes "try_block E P i count u = (evs, Interrupted)"
    and "\<not> max_images P \<le> int count"
    and "only_same_domain P \<longrightarrow> same_domain E (base_url P) u = Inr True"
  shows "download_loop E P i count (u # rest) = (evs, Inr count)"
  using assms by auto

lemma loop_inv:
  "download_loop E P i c urls = (tr, res) \<Longrightarrow>
     capped (max_images P) c tr \<and>
     (int c \<le> max_images P \<longrightarrow> int (c + length (written tr)) \<le> max_images P) \<and>
     (\<forall>n. res = Inr n \<longrightarrow> n = c + length (written tr))"
proof (induction E P i c urls arbitrary: tr res rule: download_loop.induct)
  case (1 E P i count)
  then show ?case by auto
next
  case (2 E P i count img_url rest)
  show ?case
  proof (cases "int count \<ge> max_images P")
    case True
    with 2(4) show ?thesis by auto
  next
    case False
    note nf = False
    show ?thesis
    proof (cases "if only_same_domain P then same_domain E (base_url P) img_url else Inr True")
      case (Inl e)
      with 2(4) nf show ?thesis by auto
    next
      case (Inr b)
      show ?thesis
      proof (cases b)
        case False
        with 2(3)[OF nf Inr] 2(4) nf Inr show ?thesis by simp
      next
        case True
        then have bt: "b = True" by simp
        obtain evs out where tb: "try_block E P i count img_url = (evs, out)"
          by (cases "try_block E P i count img_url")
        show ?thesis
        proof (cases out)
          case Saved
          obtain tr' res' where rec: "download_loop E P (i + 1) (count + 1) rest = (tr', res')"
            by (cases "download_loop E P (i + 1) (count + 1) rest")
          from 2(1)[OF nf Inr bt tb[symmetric] Saved rec]
          have ih: "capped (max_images P) (count + 1) tr'"
            "int (count + 1) \<le> max_images P \<longrightarrow>
               int (count + 1 + length (written tr')) \<le> max_images P"
            "\<forall>n. res' = Inr n \<longrightarrow> n = count + 1 + length (written tr')" by auto
          from try_block_cases[OF tb] Saved obtain p b where
            evs: "evs = [Get i img_url, Write p b, PrintSaved (count + 1) img_url p, Sleep (delay P)]"
            by auto
          from 2(4) nf Inr True tb Saved rec have "tr = evs @ tr'" "res = res'"
            by (auto simp: then_events_pair)
          with ih evs nf show ?thesis by auto
        next
          case Skipped
          obtain tr' res' where rec: "download_loop E P (i + 1) count rest = (tr', res')"
            by (cases "download_loop E P (i + 1) count rest")
          from 2(2)[OF nf Inr bt tb[symmetric] Skipped rec]
          have ih: "capped (max_images P) count tr'"
            "int count \<le> max_images P \<longrightarrow> int (count + length (written tr')) \<le> max_images P"
            "\<forall>n. res' = Inr n \<longrightarrow> n = count + length (written tr')" by auto
          from try_block_cases[OF tb] Skipped obtain r where
            evs: "evs = Get i img_url # r" "written evs = []" "fetched r = []"
            by auto
          from 2(4) nf Inr True tb Skipped rec have "tr = evs @ tr'" "res = res'"
            by (auto simp: then_events_pair)
          with ih evs nf capped_no_fetch[OF evs(3)] show ?thesis
            by (auto simp: capped_append written_append)
        next
          case Interrupted
          from try_block_cases[OF tb] Interrupted obtain r where
            evs: "evs = Get i img_url # r" "written evs = []" "fetched r = []"
            by auto
          from 2(4) nf Inr True tb Interrupted have "tr = evs" "res = Inr count"
            by auto
          with evs nf capped_no_fetch[OF evs(3)] show ?thesis
            by auto
        qed
      qed
    qed
  qed
qed

section \<open>The cap on saved images\<close>

text \<open>
  Claim C2. With a maximum \<open>m \<ge> 1\<close>, whatever the candidates and whatever the library
  answers for each of them, \<^verbatim>\<open>download_images\<close> writes at most \<open>m\<close> files, returns the
  number of files it wrote, and sends every request while fewer than \<open>m\<close> files are
  written: in the run, the events before any \<open>Get\<close> contain fewer than \<open>m\<close> writes, so no
  candidate after the one whose save reached \<open>m\<close> is requested.
\<close>

theorem download_images_cap:
  assumes "1 \<le> max_images P" and "download_images E img_urls P = (tr, res)"
  shows "int (length (written tr)) \<le> max_images P
       \<and> (\<forall>n. res = Inr n \<longrightarrow> n = length (written tr))
       \<and> (\<forall>pre i u post. tr = pre @ Get i u # post \<longrightarrow>
             int (length (written pre)) < max_images P)"
proof (cases "makedirs E (out_dir P)")
  case False
  with assms show ?thesis by (auto simp: download_images_def)
next
  case True
  obtain tr' res' where l: "download_loop E P 1 0 img_urls = (tr', res')"
    by (cases "download_loop E P 1 0 img_urls")
  from loop_inv[OF l] assms(1)
  have inv: "capped (max_images P) 0 tr'" "int (length (written tr')) \<le> max_images P"
    "\<forall>n. res' = Inr n \<longrightarrow> n = length (written tr')" by auto
  from assms(2) True l have tr: "tr = MakeDirs (out_dir P) # tr'" and res: "res = res'"
    by (auto simp: download_images_def then_events_pair)
  have cap: "capped (max_images P) 0 tr" using inv(1) tr by simp
  have "int (length (written pre)) < max_images P" if "tr = pre @ Get i u # post" for pre i u post
    using cap unfolding that by (simp add: capped_append)
  with inv tr res show ?thesis by auto
qed

lemma cap_try1: "try_block cap_env cap_params 1 0 ''https://site.test/img1.png'' =
   ([Get 1 ''https://site.test/img1.png'', Write ''images/0001_799a6930a5c8.png'' ''PNG'',
     PrintSaved 1 ''https://site.test/img1.png'' ''images/0001_799a6930a5c8.png'', Sleep 3], Saved)"
  by code_simp

lemma cap_try2: "try_block cap_env cap_params 2 1 ''https://site.test/img2.png'' =
   ([Get 2 ''https://site.test/img2.png'', Write ''images/0002_19790b13491f.png'' ''PNG'',
     PrintSaved 2 ''https://site.test/img2.png'' ''images/0002_19790b13491f.png'', Sleep 3], Saved)"
  by code_simp

lemma cap_try3: "try_block cap_env cap_params 3 2 ''https://site.test/img3.png'' =
   ([Get 3 ''https://site.test/img3.png'', Write ''images/0003_3a4e269b7e8b.png'' ''PNG'',
     PrintSaved 3 ''https://site.test/img3.png'' ''images/0003_3a4e269b7e8b.png'', Sleep 3], Saved)"
  by code_simp

lemma cap_consts:
  "max_images cap_params = 3" "only_same_domain cap_params = False"
  "out_dir cap_params = ''images''" "makedirs cap_env d = True"
  by (simp_all add: cap_params_def lib_params_def cap_env_def lib_env_def)

lemma cap_run:
  "download_images cap_env cap_urls cap_params =
     ([MakeDirs ''images'',
       Get 1 ''https://site.test/img1.png'', Write ''images/0001_799a6930a5c8.png'' ''PNG'',
       PrintSaved 1 ''https://site.test/img1.png'' ''images/0001_799a6930a5c8.png'', Sleep 3,
       Get 2 ''https://site.test/img2.png'', Write ''images/0002_19790b13491f.png'' ''PNG'',
       PrintSaved 2 ''https://site.test/img2.png'' ''images/0002_19790b13491f.png'', Sleep 3,
       Get 3 ''https://site.test/img3.png'', Write ''images/0003_3a4e269b7e8b.png'' ''PNG'',
       PrintSaved 3 ''https://site.test/img3.png'' ''images/0003_3a4e269b7e8b.png'', Sleep 3],
      Inr 3)"
proof -
  have l4: "download_loop cap_env cap_params 4 3 rest = ([], Inr 3)" for rest
    by (simp add: loop_cap cap_consts)
  note l3 = loop_saved[OF cap_try3 l4]
  note l2 = loop_saved[OF cap_try2 l3]
  note l1 = loop_saved[OF cap_try1 l2]
  have "download_loop cap_env cap_params 1 0 cap_urls =
     ([Get 1 ''https://site.test/img1.png'', Write ''images/0001_799a6930a5c8.png'' ''PNG'',
       PrintSaved 1 ''https://site.test/img1.png'' ''images/0001_799a6930a5c8.png'', Sleep 3,
       Get 2 ''https://site.test/img2.png'', Write ''images/0002_19790b13491f.png'' ''PNG'',
       PrintSaved 2 ''https://site.test/img2.png'' ''images/0002_19790b13491f.png'', Sleep 3,
       Get 3 ''https://site.test/img3.png'', Write ''images/0003_3a4e269b7e8b.png'' ''PNG'',
       PrintSaved 3 ''https://site.test/img3.png'' ''images/0003_3a4e269b7e8b.png'', Sleep 3],
      Inr 3)"
    unfolding cap_urls_def by (subst l1) (simp_all add: cap_consts)
  then show ?thesis
    unfolding download_images_def by (simp add: cap_consts then_events_pair)
qed


text \<open>
  The example of the claim: ten downloadable candidates and \<open>m = 3\<close> give three files, the
  candidates 1, 2 and 3 are requested and no other.
\<close>

theorem download_images_cap_witness:
  "1 \<le> max_images cap_params
   \<and> snd (download_images cap_env cap_urls cap_params) = Inr 3
   \<and> length (written (fst (download_images cap_env cap_urls cap_params))) = 3
   \<and> fetched (fst (download_images cap_env cap_urls cap_params)) = [1, 2, 3]
   \<and> int (length (written
         [MakeDirs ''images'',
          Get 1 ''https://site.test/img1.png'', Write ''images/0001_799a6930a5c8.png'' ''PNG'',
          PrintSaved 1 ''https://site.test/img1.png'' ''images/0001_799a6930a5c8.png'', Sleep 3,
          Get 2 ''https://site.test/img2.png'', Write ''images/0002_19790b13491f.png'' ''PNG'',
          PrintSaved 2 ''https://site.test/img2.png'' ''images/0002_19790b13491f.png'',
          Sleep 3])) < max_images cap_params"
proof -
  have m: "1 \<le> max_images cap_params" by (simp add: cap_consts)
  from download_images_cap[OF m cap_run]
  have "\<forall>pre i u post.
          [MakeDirs ''images'',
           Get 1 ''https://site.test/img1.png'', Write ''images/0001_799a6930a5c8.png'' ''PNG'',
           PrintSaved 1 ''https://site.test/img1.png'' ''images/0001_799a6930a5c8.png'', Sleep 3,
           Get 2 ''https://site.test/img2.png'', Write ''images/0002_19790b13491f.png'' ''PNG'',
           PrintSaved 2 ''https://site.test/img2.png'' ''images/0002_19790b13491f.png'', Sleep 3,
           Get 3 ''https://site.test/img3.png'', Write ''images/0003_3a4e269b7e8b.png'' ''PNG'',
           PrintSaved 3 ''https://site.test/img3.png'' ''images/0003_3a4e269b7e8b.png'', Sleep 3]
          = pre @ Get i u # post \<longrightarrow> int (length (written pre)) < max_images cap_params"
    by blast
  from this[rule_format,
      of "[MakeDirs ''images'',
           Get 1 ''https://site.test/img1.png'', Write ''images/0001_799a6930a5c8.png'' ''PNG'',
           PrintSaved 1 ''https://site.test/img1.png'' ''images/0001_799a6930a5c8.png'', Sleep 3,
           Get 2 ''https://site.test/img2.png'', Write ''images/0002_19790b13491f.png'' ''PNG'',
           PrintSaved 2 ''https://site.test/img2.png'' ''images/0002_19790b13491f.png'', Sleep 3]"
         3 "''https://site.test/img3.png''"
         "[Write ''images/0003_3a4e269b7e8b.png'' ''PNG'',
           PrintSaved 3 ''https://site.test/img3.png'' ''images/0003_3a4e269b7e8b.png'', Sleep 3]"]
  have "int (length (written
         [MakeDirs ''images'',
          Get 1 ''https://site.test/img1.png'', Write ''images/0001_799a6930a5c8.png'' ''PNG'',
          PrintSaved 1 ''https://site.test/img1.png'' ''images/0001_799a6930a5c8.png'', Sleep 3,
          Get 2 ''https://site.test/img2.png'', Write ''images/0002_19790b13491f.png'' ''PNG'',
          PrintSaved 2 ''https://site.test/img2.png'' ''images/0002_19790b13491f.png'',
          Sleep 3])) < max_images cap_params"
    by simp
  with m show ?thesis unfolding cap_run by simp
qed

section \<open>Responses that are not images\<close>

text \<open>
  Claim C3 at its failing input. A page served as \<^verbatim>\<open>text/html\<close> with status 200 is
  requested while Pillow is available. The comment in the branch of the Content-Type
  test says that the body will be checked with Pillow, but no such check follows: with
  the default minimums Pillow is never called, and with a minimum width set the failure
  to open the body is swallowed. In both runs the markup is written to storage under an
  image index and counted as a saved image.
\<close>

theorem non_image_saved_with_pillow:
  "session_get pillow_env 1 ''https://site.test/page'' = Response html_response
   \<and> status_code html_response < 400
   \<and> \<not> content_type_is_image html_response
   \<and> PIL_AVAILABLE pillow_env
   \<and> image_size pillow_env ''<html></html>'' = None
   \<and> try_block pillow_env lib_params 1 0 ''https://site.test/page'' =
       ([Get 1 ''https://site.test/page'',
         Write ''images/0001_70119120de42.html'' ''<html></html>'',
         PrintSaved 1 ''https://site.test/page'' ''images/0001_70119120de42.html'',
         Sleep 3], Saved)
   \<and> try_block pillow_env min_width_params 1 0 ''https://site.test/page'' =
       ([Get 1 ''https://site.test/page'',
         Write ''images/0001_70119120de42.html'' ''<html></html>'',
         PrintSaved 1 ''https://site.test/page'' ''images/0001_70119120de42.html'',
         Sleep 3], Saved)
   \<and> download_images pillow_env [''https://site.test/page''] lib_params =
       ([MakeDirs ''images'', Get 1 ''https://site.test/page'',
         Write ''images/0001_70119120de42.html'' ''<html></html>'',
         PrintSaved 1 ''https://site.test/page'' ''images/0001_70119120de42.html'',
         Sleep 3], Inr 1)"
  by code_simp

text \<open>
  The other branch of the same test. When Pillow is not available, a response with
  status below 400 whose Content-Type is not an image type is skipped, as the claim
  says: the iteration consists of the request alone (nothing is written, nothing is
  printed, no pause), and the loop goes on to the next candidate with the same count.
\<close>

lemma non_image_skipped_without_pillow:
  assumes "session_get E i u = Response resp"
    and "status_code resp < 400"
    and "\<not> content_type_is_image resp"
    and "\<not> PIL_AVAILABLE E"
    and "int count < max_images P"
    and "only_same_domain P \<longrightarrow> same_domain E (base_url P) u = Inr True"
  shows "try_block E P i count u = ([Get i u], Skipped)
       \<and> download_loop E P i count (u # rest) =
           then_events [Get i u] (download_loop E P (i + 1) count rest)"
proof -
  have tb: "try_block E P i count u = ([Get i u], Skipped)"
    using assms(1-4) by (simp add: try_block_def)
  with assms(5,6) show ?thesis by auto
qed

lemma non_image_skipped_without_pillow_example:
  "session_get no_pillow_env 1 ''https://site.test/page'' = Response html_response
   \<and> status_code html_response < 400
   \<and> \<not> content_type_is_image html_response
   \<and> \<not> PIL_AVAILABLE no_pillow_env
   \<and> int 0 < max_images lib_params
   \<and> \<not> only_same_domain lib_params
   \<and> try_block no_pillow_env lib_params 1 0 ''https://site.test/page'' =
        ([Get 1 ''https://site.test/page''], Skipped)
   \<and> download_loop no_pillow_env lib_params 1 0 [''https://site.test/page''] =
        ([Get 1 ''https://site.test/page''], Inr 0)"
proof -
  have h: "session_get no_pillow_env 1 ''https://site.test/page'' = Response html_response"
    "status_code html_response < 400" "\<not> content_type_is_image html_response"
    "\<not> PIL_AVAILABLE no_pillow_env" "int 0 < max_images lib_params"
    "\<not> only_same_domain lib_params"
    by code_simp+
  from h(6) have d: "only_same_domain lib_params \<longrightarrow>
      same_domain no_pillow_env (base_url lib_params) ''https://site.test/page'' = Inr True"
    by simp
  from non_image_skipped_without_pillow[OF h(1-5) d, of "[]"] h
  show ?thesis by (simp add: then_events_def)
qed

section \<open>The dimension filter fails open\<close>

text \<open>
  Claim C9. With Pillow available and a minimum width or height set, a body that Pillow
  cannot open is not rejected: when the extension is inferred and the file can be
  written, the iteration writes the body, counts it and ends as \<open>Saved\<close>; and in every
  case the iteration is the one the loop makes with both minimums set to zero, so the
  failure to decode changes nothing and raises nothing.
\<close>

theorem undecodable_body_fails_open:
  assumes "session_get E i u = Response resp"
    and "status_code resp < 400"
    and "PIL_AVAILABLE E"
    and "nonzero (min_w P) \<or> nonzero (min_h P)"
    and "content resp = Some body"
    and "image_size E body = None"
    and "infer_extension E resp u = Some ext"
    and "write_file E (path_join (out_dir P) (hash_to_name E u (int count + 1) ext)) body"
  shows "try_block E P i count u =
           ([Get i u,
             Write (path_join (out_dir P) (hash_to_name E u (int count + 1) ext)) body,
             PrintSaved (count + 1) u (path_join (out_dir P) (hash_to_name E u (int count + 1) ext)),
             Sleep (delay P)], Saved)
       \<and> try_block E P i count u = try_block E (P\<lparr>min_w := 0, min_h := 0\<rparr>) i count u"
  using assms by (simp add: try_block_def Let_def nonzero_def)

theorem undecodable_body_fails_open_witness:
  "session_get svg_env 1 ''https://site.test/logo.svg'' = Response svg_response
   \<and> status_code svg_response < 400
   \<and> PIL_AVAILABLE svg_env
   \<and> nonzero (min_w min_width_params)
   \<and> content svg_response = Some ''<svg/>''
   \<and> image_size svg_env ''<svg/>'' = None
   \<and> infer_extension svg_env svg_response ''https://site.test/logo.svg'' = Some ''.svg''
   \<and> write_file svg_env ''images/0001_dc7a31ee55bc.svg'' ''<svg/>''
   \<and> try_block svg_env min_width_params 1 0 ''https://site.test/logo.svg'' =
        ([Get 1 ''https://site.test/logo.svg'',
          Write ''images/0001_dc7a31ee55bc.svg'' ''<svg/>'',
          PrintSaved 1 ''https://site.test/logo.svg'' ''images/0001_dc7a31ee55bc.svg'',
          Sleep 3], Saved)"
proof -
  have h: "session_get svg_env 1 ''https://site.test/logo.svg'' = Response svg_response"
    "status_code svg_response < 400" "PIL_AVAILABLE svg_env"
    "nonzero (min_w min_width_params)"
    "content svg_response = Some ''<svg/>''" "image_size svg_env ''<svg/>'' = None"
    "infer_extension svg_env svg_response ''https://site.test/logo.svg'' = Some ''.svg''"
    by code_simp+
  have n: "path_join (out_dir min_width_params)
             (hash_to_name svg_env ''https://site.test/logo.svg'' (int 0 + 1) ''.svg'')
           = ''images/0001_dc7a31ee55bc.svg''"
    "delay min_width_params = 3"
    by code_simp+
  have w: "write_file svg_env ''images/0001_dc7a31ee55bc.svg'' ''<svg/>''"
    by code_simp
  have d: "nonzero (min_w min_width_params) \<or> nonzero (min_h min_width_params)"
    using h(4) by simp
  from undecodable_body_fails_open[OF h(1-3) d h(5-7), of 0, unfolded n, OF w] h w
  show ?thesis by simp
qed

section \<open>The pause between requests\<close>

text \<open>
  Claim C4 at its failing inputs. A candidate answered with status 404, and a candidate
  answered with a Content-Type that is not an image type while Pillow is not available,
  are both requested, and the run has no \<open>Sleep\<close> after the request: the two
  \<^verbatim>\<open>continue\<close> statements are reached before any \<^verbatim>\<open>time.sleep(delay)\<close>.
\<close>

theorem no_delay_after_rejected_fetch:
  "download_images not_found_env [''https://site.test/missing.png''] lib_params =
     ([MakeDirs ''images'', Get 1 ''https://site.test/missing.png''], Inr 0)
   \<and> download_images no_pillow_env [''https://site.test/page''] lib_params =
     ([MakeDirs ''images'', Get 1 ''https://site.test/page''], Inr 0)"
  by code_simp

section \<open>File names\<close>

text \<open>
  The index is the part of a file name before its first underscore, and
  \<open>format_04d\<close> is injective: \<open>decimal_value\<close> reads the number back.
\<close>

lemma digit_char_cases:
  "d < 10 \<Longrightarrow> digit_char d \<in> set ''0123456789''"
proof -
  assume "d < 10"
  then have "d \<in> {0, 1, 2, 3, 4, 5, 6, 7, 8, 9}" by auto
  then show ?thesis
    by (auto simp: digit_char_def)
qed

lemma digit_value_digit_char: "d < 10 \<Longrightarrow> digit_value (digit_char d) = d"
proof -
  assume "d < 10"
  then have "d \<in> {0, 1, 2, 3, 4, 5, 6, 7, 8, 9}" by auto
  then show ?thesis
    by (auto simp: digit_value_def digit_char_def)
qed

lemma decimal_digits: "set (decimal n) \<subseteq> set ''0123456789''"
proof (induction n rule: decimal.induct)
  case (1 n)
  show ?case
  proof (cases "n < 10")
    case True
    then show ?thesis using digit_char_cases[of n] by (subst decimal.simps) simp
  next
    case False
    have "n mod 10 < 10" by simp
    from digit_char_cases[OF this] 1[OF False] False show ?thesis
      by (subst decimal.simps) simp
  qed
qed

lemma decimal_value_append:
  "decimal_value (xs @ [c]) = 10 * decimal_value xs + digit_value c"
  by (simp add: decimal_value_def)

lemma decimal_value_decimal: "decimal_value (decimal n) = n"
proof (induction n rule: decimal.induct)
  case (1 n)
  show ?case
  proof (cases "n < 10")
    case True
    then show ?thesis
      by (subst decimal.simps) (simp add: decimal_value_def digit_value_digit_char)
  next
    case False
    have "decimal_value (decimal (n div 10) @ [digit_char (n mod 10)]) = n"
      using 1[OF False] by (simp add: decimal_value_append digit_value_digit_char)
    with False show ?thesis by (subst decimal.simps) simp
  qed
qed

lemma decimal_value_zeros: "decimal_value (replicate k (CHR ''0'') @ s) = decimal_value s"
proof -
  have "foldl (\<lambda>a c. 10 * a + digit_value c) 0 (replicate k (CHR ''0'')) = 0"
    by (induction k) (simp_all add: digit_value_def)
  then show ?thesis by (simp add: decimal_value_def)
qed

lemma decimal_value_zero_pad: "decimal_value (zero_pad w (decimal n)) = n"
  by (simp add: zero_pad_def decimal_value_zeros decimal_value_decimal)

lemma zero_pad_digits: "set (zero_pad w (decimal n)) \<subseteq> set ''0123456789''"
  using decimal_digits[of n] by (auto simp: zero_pad_def)

lemma decimal_nonempty: "decimal n \<noteq> []"
  by (subst decimal.simps) simp

lemma zero_pad_nonempty: "zero_pad w (decimal n) \<noteq> []"
  by (simp add: zero_pad_def decimal_nonempty)

lemma format_04d_inj: "format_04d i = format_04d j \<Longrightarrow> i = j"
proof -
  assume eq: "format_04d i = format_04d j"
  have nominus: "hd (zero_pad 4 (decimal n)) \<noteq> CHR ''-''" for n
    using zero_pad_digits[of 4 n] zero_pad_nonempty[of 4 n]
    by (cases "zero_pad 4 (decimal n)") auto
  consider "i < 0" "j < 0" | "0 \<le> i" "0 \<le> j" | "i < 0" "0 \<le> j" | "0 \<le> i" "j < 0"
    by linarith
  then show ?thesis
  proof cases
    case 1
    with eq have "zero_pad 3 (decimal (nat (- i))) = zero_pad 3 (decimal (nat (- j)))"
      by (simp add: format_04d_def)
    then have "decimal_value (zero_pad 3 (decimal (nat (- i)))) =
               decimal_value (zero_pad 3 (decimal (nat (- j))))" by simp
    then have "nat (- i) = nat (- j)" by (simp add: decimal_value_zero_pad)
    with 1 show ?thesis by simp
  next
    case 2
    with eq have "decimal_value (zero_pad 4 (decimal (nat i))) =
               decimal_value (zero_pad 4 (decimal (nat j)))"
      by (simp add: format_04d_def)
    then have "nat i = nat j" by (simp add: decimal_value_zero_pad)
    with 2 show ?thesis by simp
  next
    case 3
    with eq have "CHR ''-'' # zero_pad 3 (decimal (nat (- i))) = zero_pad 4 (decimal (nat j))"
      by (simp add: format_04d_def)
    then have "hd (zero_pad 4 (decimal (nat j))) = CHR ''-''" by (metis list.sel(1))
    with nominus show ?thesis by simp
  next
    case 4
    with eq have "zero_pad 4 (decimal (nat i)) = CHR ''-'' # zero_pad 3 (decimal (nat (- j)))"
      by (simp add: format_04d_def)
    then have "hd (zero_pad 4 (decimal (nat i))) = CHR ''-''" by (metis list.sel(1))
    with nominus show ?thesis by simp
  qed
qed

lemma format_04d_no_underscore: "CHR ''_'' \<notin> set (format_04d i)"
  using zero_pad_digits[of 4 "nat i"] zero_pad_digits[of 3 "nat (- i)"]
  by (auto simp: format_04d_def)

lemma format_04d_no_slash: "\<not> prefix ''/'' (format_04d i)"
  using zero_pad_digits[of 4 "nat i"] zero_pad_nonempty[of 4 "nat i"]
  by (cases "zero_pad 4 (decimal (nat i))") (auto simp: format_04d_def)

lemma hash_to_name_index:
  "takeWhile (\<lambda>c. c \<noteq> CHR ''_'') (hash_to_name E url idx ext) = format_04d idx"
proof -
  have "\<forall>c \<in> set (format_04d idx). c \<noteq> CHR ''_''"
    using format_04d_no_underscore[of idx] by auto
  then show ?thesis
    by (simp add: hash_to_name_def Let_def takeWhile_append)
qed

lemma hash_to_name_inj:
  assumes "hash_to_name E url i ext = hash_to_name E url' j ext'"
  shows "i = j"
proof -
  from assms have "format_04d i = format_04d j"
    using hash_to_name_index[of E url i ext] hash_to_name_index[of E url' j ext'] by simp
  then show ?thesis by (rule format_04d_inj)
qed

lemma hash_to_name_no_slash: "\<not> prefix ''/'' (hash_to_name E url idx ext)"
  using format_04d_no_slash[of idx]
  by (cases "format_04d idx") (auto simp: hash_to_name_def Let_def)

lemma path_join_inj:
  assumes "path_join d a = path_join d b" and "\<not> prefix ''/'' a" and "\<not> prefix ''/'' b"
  shows "a = b"
  using assms by (auto simp: path_join_def split: if_splits)


lemma loop_cases:
  assumes "download_loop E P i c (u # rest) = (tr, res)"
  shows "(tr = [] \<and> (res = Inr c \<or> (\<exists>e. res = Inl e)))
       \<or> download_loop E P (i + 1) c rest = (tr, res)
       \<or> (\<exists>evs tr'. tr = evs @ tr' \<and> try_block E P i c u = (evs, Saved)
              \<and> download_loop E P (i + 1) (c + 1) rest = (tr', res))
       \<or> (\<exists>evs tr'. tr = evs @ tr' \<and> try_block E P i c u = (evs, Skipped)
              \<and> download_loop E P (i + 1) c rest = (tr', res))
       \<or> (try_block E P i c u = (tr, Interrupted) \<and> res = Inr c)"
proof (cases "max_images P \<le> int c")
  case True
  with assms show ?thesis by auto
next
  case False
  note nf = False
  show ?thesis
  proof (cases "if only_same_domain P then same_domain E (base_url P) u else Inr True")
    case (Inl e)
    with assms nf show ?thesis by auto
  next
    case (Inr b)
    show ?thesis
    proof (cases b)
      case False
      with assms nf Inr show ?thesis by simp
    next
      case True
      obtain evs out where tb: "try_block E P i c u = (evs, out)"
        by (cases "try_block E P i c u")
      show ?thesis
      proof (cases out)
        case Saved
        obtain tr' res' where rec: "download_loop E P (i + 1) (c + 1) rest = (tr', res')"
          by (cases "download_loop E P (i + 1) (c + 1) rest")
        with assms nf Inr True tb Saved have "tr = evs @ tr'" "res = res'"
          by (auto simp: then_events_pair)
        with tb Saved rec show ?thesis by simp
      next
        case Skipped
        obtain tr' res' where rec: "download_loop E P (i + 1) c rest = (tr', res')"
          by (cases "download_loop E P (i + 1) c rest")
        with assms nf Inr True tb Skipped have "tr = evs @ tr'" "res = res'"
          by (auto simp: then_events_pair)
        with tb Skipped rec show ?thesis by simp
      next
        case Interrupted
        with assms nf Inr True tb show ?thesis by auto
      qed
    qed
  qed
qed

lemma try_block_saved:
  assumes "try_block E P i c u = (evs, Saved)"
  shows "\<exists>ext. written evs = [path_join (out_dir P) (hash_to_name E u (int c + 1) ext)]"
  using assms
  by (auto simp: try_block_def on_exception_def Let_def
           split: get_result.splits if_splits option.splits)

lemma try_block_not_saved:
  assumes "try_block E P i c u = (evs, out)" and "out \<noteq> Saved"
  shows "written evs = []"
  using try_block_cases[OF assms(1)] assms(2) by auto

lemma loop_names:
  "download_loop E P i c urls = (tr, res) \<Longrightarrow> k < length (written tr) \<Longrightarrow>
     \<exists>u ext. u \<in> set urls \<and>
       written tr ! k = path_join (out_dir P) (hash_to_name E u (int (c + k) + 1) ext)"
proof (induction urls arbitrary: i c tr res k)
  case Nil
  then show ?case by simp
next
  case (Cons u rest)
  from loop_cases[OF Cons.prems(1)] consider
      (stop) "tr = []"
    | (other_domain) "download_loop E P (i + 1) c rest = (tr, res)"
    | (saved) evs tr' where "tr = evs @ tr'" "try_block E P i c u = (evs, Saved)"
        "download_loop E P (i + 1) (c + 1) rest = (tr', res)"
    | (skipped) evs tr' where "tr = evs @ tr'" "try_block E P i c u = (evs, Skipped)"
        "download_loop E P (i + 1) c rest = (tr', res)"
    | (interrupted) "try_block E P i c u = (tr, Interrupted)"
    by blast
  then show ?case
  proof cases
    case stop
    with Cons.prems(2) show ?thesis by simp
  next
    case other_domain
    from Cons.IH[OF this Cons.prems(2)] show ?thesis by auto
  next
    case saved
    from try_block_saved[OF saved(2)] obtain ext where
      w: "written evs = [path_join (out_dir P) (hash_to_name E u (int c + 1) ext)]" by blast
    show ?thesis
    proof (cases k)
      case 0
      with saved(1) w show ?thesis by (auto simp: written_append)
    next
      case (Suc k')
      with Cons.prems(2) saved(1) w have "k' < length (written tr')"
        by (simp add: written_append)
      from Cons.IH[OF saved(3) this] obtain u' ext' where "u' \<in> set rest"
        "written tr' ! k' = path_join (out_dir P) (hash_to_name E u' (int (c + 1 + k') + 1) ext')"
        by blast
      with Suc saved(1) w show ?thesis by (auto simp: written_append)
    qed
  next
    case skipped
    from try_block_not_saved[OF skipped(2)] have w: "written evs = []" by simp
    with Cons.prems(2) skipped(1) have "k < length (written tr')" by (simp add: written_append)
    from Cons.IH[OF skipped(3) this] skipped(1) w show ?thesis by (auto simp: written_append)
  next
    case interrupted
    from try_block_not_saved[OF interrupted] have "written tr = []" by simp
    with Cons.prems(2) show ?thesis by simp
  qed
qed

text \<open>
  Claim C8. In one run of \<^verbatim>\<open>download_images\<close> the files written are pairwise distinct.
  The \<open>k\<close>-th file written (counting from 0) is
  \<^verbatim>\<open>os.path.join(out_dir, hash_to_name(url, k + 1, ext))\<close> for some candidate and extension,
  so the index grows by one with every save; and two names with different indices
  differ, whatever the URLs, their hashes and the extensions are.
\<close>

theorem saved_filenames_distinct:
  assumes "download_images E img_urls P = (tr, res)"
  shows "distinct (written tr)
       \<and> (\<forall>k < length (written tr). \<exists>u ext. u \<in> set img_urls \<and>
             written tr ! k = path_join (out_dir P) (hash_to_name E u (int k + 1) ext))
       \<and> (\<forall>u i ext u' j ext'. i \<noteq> j \<longrightarrow> hash_to_name E u i ext \<noteq> hash_to_name E u' j ext')"
proof -
  have names: "\<exists>u ext. u \<in> set img_urls \<and>
      written tr ! k = path_join (out_dir P) (hash_to_name E u (int k + 1) ext)"
    if "k < length (written tr)" for k
  proof (cases "makedirs E (out_dir P)")
    case False
    with assms that show ?thesis by (auto simp: download_images_def)
  next
    case True
    obtain tr' res' where l: "download_loop E P 1 0 img_urls = (tr', res')"
      by (cases "download_loop E P 1 0 img_urls")
    with assms True have tr: "tr = MakeDirs (out_dir P) # tr'"
      by (auto simp: download_images_def then_events_pair)
    with that have "k < length (written tr')" by simp
    from loop_names[OF l this] tr show ?thesis by simp
  qed
  have "distinct (written tr)"
    unfolding distinct_conv_nth
  proof (intro allI impI)
    fix a b
    assume a: "a < length (written tr)" and b: "b < length (written tr)" and ne: "a \<noteq> b"
    from names[OF a] obtain u ext where
      pa: "written tr ! a = path_join (out_dir P) (hash_to_name E u (int a + 1) ext)" by blast
    from names[OF b] obtain u' ext' where
      pb: "written tr ! b = path_join (out_dir P) (hash_to_name E u' (int b + 1) ext')" by blast
    show "written tr ! a \<noteq> written tr ! b"
    proof
      assume "written tr ! a = written tr ! b"
      with pa pb have "hash_to_name E u (int a + 1) ext = hash_to_name E u' (int b + 1) ext'"
        using path_join_inj hash_to_name_no_slash by metis
      from hash_to_name_inj[OF this] ne show False by simp
    qed
  qed
  moreover have "hash_to_name E u i ext \<noteq> hash_to_name E u' j ext'" if "i \<noteq> j" for u i ext u' j ext'
    using hash_to_name_inj[of E u i ext u' j ext'] that by auto
  ultimately show ?thesis using names by blast
qed

theorem saved_filenames_distinct_witness:
  "written (fst (download_images cap_env cap_urls cap_params)) =
     [''images/0001_799a6930a5c8.png'', ''images/0002_19790b13491f.png'',
      ''images/0003_3a4e269b7e8b.png'']
   \<and> distinct (written (fst (download_images cap_env cap_urls cap_params)))
   \<and> hash_to_name cap_env ''https://site.test/a.png'' 1 ''.png''
       \<noteq> hash_to_name cap_env ''https://site.test/a.png'' 2 ''.png''"
proof -
  have ne: "(1::int) \<noteq> 2" by simp
  from saved_filenames_distinct[OF cap_run]
  have "distinct (written (fst (download_images cap_env cap_urls cap_params)))"
    and "hash_to_name cap_env ''https://site.test/a.png'' 1 ''.png''
       \<noteq> hash_to_name cap_env ''https://site.test/a.png'' 2 ''.png''"
    using ne unfolding cap_run by (simp, blast)
  then show ?thesis unfolding cap_run by simp
qed

section \<open>The same-domain test\<close>

text \<open>
  Claim C10. \<^verbatim>\<open>same_domain\<close> compares the netloc components: whenever both URLs parse,
  it returns true exactly when the candidate's netloc equals the base's netloc or ends
  with a dot followed by the base's netloc. The port is part of the netloc, so
  \<^verbatim>\<open>https://a.com\<close> and \<^verbatim>\<open>https://a.com:8080/p.png\<close> are not on the same domain.
\<close>

theorem same_domain_compares_netloc:
  assumes "urlparse E b_url = Some pb" and "urlparse E t_url = Some pt"
  shows "same_domain E b_url t_url =
           Inr (netloc pt = netloc pb \<or> suffix (''.'' @ netloc pb) (netloc pt))"
  using assms by (auto simp: same_domain_def Let_def)

theorem same_domain_compares_netloc_witness:
  "urlparse lib_env ''https://a.com'' = Some \<lparr>netloc = ''a.com'', path = []\<rparr>
   \<and> urlparse lib_env ''https://a.com:8080/p.png'' =
        Some \<lparr>netloc = ''a.com:8080'', path = ''/p.png''\<rparr>
   \<and> same_domain lib_env ''https://a.com'' ''https://a.com:8080/p.png'' = Inr False
   \<and> same_domain lib_env ''https://a.com'' ''https://img.a.com/p.png'' = Inr True
   \<and> same_domain lib_env ''https://a.com'' ''https://b.com/p.png'' = Inr False"
proof -
  have b: "urlparse lib_env ''https://a.com'' = Some \<lparr>netloc = ''a.com'', path = []\<rparr>"
    by code_simp
  have t: "urlparse lib_env ''https://a.com:8080/p.png'' =
        Some \<lparr>netloc = ''a.com:8080'', path = ''/p.png''\<rparr>"
    by code_simp
  have t2: "urlparse lib_env ''https://img.a.com/p.png'' =
        Some \<lparr>netloc = ''img.a.com'', path = ''/p.png''\<rparr>"
    by code_simp
  have t3: "urlparse lib_env ''https://b.com/p.png'' =
        Some \<lparr>netloc = ''b.com'', path = ''/p.png''\<rparr>"
    by code_simp
  have s: "\<not> suffix ''.a.com'' ''a.com:8080''" "suffix ''.a.com'' ''img.a.com''"
    "\<not> suffix ''.a.com'' ''b.com''"
    by (simp_all add: suffix_def)
  from same_domain_compares_netloc[OF b t] same_domain_compares_netloc[OF b t2]
    same_domain_compares_netloc[OF b t3] b t s
  show ?thesis by simp
qed

section \<open>The order of the candidates\<close>

text \<open>
  Claim C1 at its failing input, the end-to-end scenario. The references are discovered
  and resolved in the order a, b, c, d, but they are collected in a \<^verbatim>\<open>set\<close>, and the
  result lists them in the order of that set: b, a, d, c under the hash seed 0. The
  \<^verbatim>\<open>dict.fromkeys\<close> of the last line keeps an order that is already lost.
\<close>

theorem extraction_order_follows_set:
  "join_all e2e_env page_url (discovered_refs (BeautifulSoup e2e_env e2e_html)) =
     Inr [''https://site.test/a.png'', ''https://site.test/b.png'',
          ''https://site.test/c.png'', ''https://cdn.test/d.png'']
   \<and> extract_image_urls e2e_env e2e_html page_url =
     Inr [''https://site.test/b.png'', ''https://site.test/a.png'',
          ''https://cdn.test/d.png'', ''https://site.test/c.png'']"
  by code_simp

section \<open>Inline styles\<close>

text \<open>
  Claim C6 at its failing input. The pattern asks for a backslash after \<^verbatim>\<open>url\<close>, so it
  does not match \<^verbatim>\<open>url(/bg.png)\<close>: the scan finds nothing and the reference is not in
  the output, which is empty. Where the pattern does match (\<^verbatim>\<open>url\<close>, a backslash,
  \<^verbatim>\<open>/bg.png\<close>, a backslash), the function raises AttributeError instead of returning.
\<close>

theorem style_reference_not_extracted:
  "findall_style style_html = []
   \<and> extract_image_urls style_env style_html page_url = Inr []
   \<and> extract_image_urls lib_env escaped_html page_url = Inl AttributeError"
  by code_simp

section \<open>Embedded data\<close>

text \<open>
  Claim C7 at its failing input. The source of an \<^verbatim>\<open>img\<close> element is added without any
  test of its scheme: a \<^verbatim>\<open>data:\<close> URI comes out as a candidate. Only the style loop
  tests for the prefix.
\<close>

theorem data_uri_extracted:
  "extract_image_urls data_env data_html page_url = Inr [''data:image/png;base64,AAAA'']"
  by code_simp

section \<open>A page without candidates\<close>

text \<open>
  Claim C5 at its failing input. For a page that yields no candidate, \<^verbatim>\<open>main\<close> prints
  that it found 0 candidates, calls \<^verbatim>\<open>download_images\<close> (which creates the output
  directory) and ends normally with the line that reports 0 saved images.
\<close>

theorem main_completes_without_candidates:
  "extract_image_urls empty_env empty_html page_url = Inr []
   \<and> main empty_env default_args =
       ([Report (FoundCandidates 0), Download (MakeDirs ''images''),
         Report (Done 0 ''images'')], Inr ())"
  by code_simp

section \<open>What the extraction returns\<close>

text \<open>
  When \<^verbatim>\<open>extract_image_urls\<close> returns, the style scan has found nothing, and the result
  is the set of the resolved \<^verbatim>\<open>img\<close> and metadata references in the set's own order:
  every URL once, the same URLs as the discovery would give, in an order the code does
  not control. The pattern of the style scan never matches a reference written with a
  parenthesis after \<^verbatim>\<open>url\<close>.
\<close>

lemma fromkeys_from_set: "set (fromkeys_from seen xs) = set xs - set seen"
  by (induction seen xs rule: fromkeys_from.induct) auto

lemma fromkeys_from_distinct: "distinct (fromkeys_from seen xs)"
  by (induction seen xs rule: fromkeys_from.induct) (auto simp: fromkeys_from_set)

lemma fromkeys_from_id:
  "distinct xs \<Longrightarrow> set xs \<inter> set seen = {} \<Longrightarrow> fromkeys_from seen xs = xs"
  by (induction seen xs rule: fromkeys_from.induct) auto

lemma dict_fromkeys_set: "set (dict_fromkeys xs) = set xs"
  by (simp add: dict_fromkeys_def fromkeys_from_set)

lemma dict_fromkeys_distinct: "distinct (dict_fromkeys xs)"
  by (simp add: dict_fromkeys_def fromkeys_from_distinct)

lemma dict_fromkeys_id: "distinct xs \<Longrightarrow> dict_fromkeys xs = xs"
  by (simp add: dict_fromkeys_def fromkeys_from_id)

lemma extract_image_urls_returns:
  assumes "extract_image_urls E html b = Inr out"
  shows "findall_style html = []
       \<and> (\<exists>added. join_all E b (discovered_refs (BeautifulSoup E html)) = Inr added
             \<and> out = dict_fromkeys (set_order E added))"
  using assms
  by (auto simp: extract_image_urls_def Let_def split: sum.splits if_splits)

lemma extract_image_urls_same_urls:
  assumes "extract_image_urls E html b = Inr out"
    and "join_all E b (discovered_refs (BeautifulSoup E html)) = Inr added"
    and "distinct (set_order E added)" and "set (set_order E added) = set added"
  shows "distinct out \<and> set out = set (dict_fromkeys added) \<and> out = set_order E added"
  using extract_image_urls_returns[OF assms(1)] assms(2-4)
  by (auto simp: dict_fromkeys_id dict_fromkeys_set)

lemma style_match_backslash:
  "style_match s = Some r \<Longrightarrow> take 1 (drop 3 s) = [backslash]"
  by (auto simp: style_match_def split: if_splits)

lemma style_match_not_paren:
  "take 1 (drop 3 s) = ''('' \<Longrightarrow> style_match s = None"
  by (auto simp: style_match_def backslash_def)

section \<open>Where the loop pauses\<close>

text \<open>
  An iteration that sends a request ends with \<^verbatim>\<open>time.sleep(delay)\<close> except in three
  cases: the interrupt, a status of 400 or more, and a Content-Type that is not an image
  type while Pillow is not available. In the last two the iteration is the request alone.
\<close>

lemma try_block_pause:
  assumes "try_block E P i c u = (evs, out)"
  shows "Sleep (delay P) \<in> set evs
       \<or> out = Interrupted
       \<or> (\<exists>resp. session_get E i u = Response resp \<and> evs = [Get i u] \<and> out = Skipped
              \<and> (status_code resp \<ge> 400
                  \<or> (\<not> content_type_is_image resp \<and> \<not> PIL_AVAILABLE E)))"
  using assms
  by (auto simp: try_block_def on_exception_def Let_def
           split: get_result.splits if_splits option.splits)

end
